theory Spec2Isabelle
  imports Main
begin

section \<open>Conditional dispatch (sunpy/util/cond\_dispatch.py)\<close>

text \<open>
  The module offers a callable object, \<open>ConditionalDispatch\<close>, that routes a call
  to one of the functions registered with it: it looks for the registered functions whose
  signature (and optional type list) fits the call, then asks each one's condition.
  The embedding follows the Python 2 source function by function; every \<open>raise\<close>,
  and every exception an expression of the source can raise on the modelled inputs, is
  a branch that returns \<open>Inl\<close>.
\<close>

subsection \<open>Python values\<close>

text \<open>
  The values that flow through a call. \<open>PObj c n\<close> is the instance number \<open>n\<close>
  of a user class \<open>c\<close> that derives from \<open>object\<close> and overrides neither
  \<open>__eq__\<close>, \<open>__hash__\<close> nor \<open>__nonzero__\<close>.
\<close>

datatype pyval =
    PNone
  | PBool bool
  | PInt int
  | PStr string
  | PList "pyval list"
  | PObj string nat

text \<open>The classes a type list can name (\<open>basestring\<close> and \<open>list\<close> are the ones
  the spectrogram module registers).\<close>

datatype pyclass =
    ClsObject
  | ClsNoneType
  | ClsBool
  | ClsInt
  | ClsBasestring
  | ClsStr
  | ClsList
  | ClsUser string

text \<open>\<open>isinstance(obj, cls)\<close>: \<open>bool\<close> derives from \<open>int\<close>, \<open>str\<close> from
  \<open>basestring\<close>, everything from \<open>object\<close>.\<close>

fun isinstance :: "pyval \<Rightarrow> pyclass \<Rightarrow> bool" where
  "isinstance v ClsObject = True"
| "isinstance PNone ClsNoneType = True"
| "isinstance (PBool b) ClsBool = True"
| "isinstance (PBool b) ClsInt = True"
| "isinstance (PInt i) ClsInt = True"
| "isinstance (PStr s) ClsBasestring = True"
| "isinstance (PStr s) ClsStr = True"
| "isinstance (PList xs) ClsList = True"
| "isinstance (PObj c n) (ClsUser c') = (c = c')"
| "isinstance v cls = False"

text \<open>The truth value Python's \<open>if\<close> gives a value.\<close>

fun truthy :: "pyval \<Rightarrow> bool" where
  "truthy PNone = False"
| "truthy (PBool b) = b"
| "truthy (PInt i) = (i \<noteq> 0)"
| "truthy (PStr s) = (s \<noteq> [])"
| "truthy (PList xs) = (xs \<noteq> [])"
| "truthy (PObj c n) = True"

text \<open>Python's \<open>==\<close>: \<open>True == 1\<close> and \<open>False == 0\<close>, lists compare element by
  element, instances by identity.\<close>

fun py_eq :: "pyval \<Rightarrow> pyval \<Rightarrow> bool"
  and py_eq_list :: "pyval list \<Rightarrow> pyval list \<Rightarrow> bool" where
  "py_eq PNone PNone = True"
| "py_eq (PBool b) (PBool c) = (b = c)"
| "py_eq (PBool b) (PInt i) = (i = (if b then 1 else 0))"
| "py_eq (PInt i) (PBool b) = (i = (if b then 1 else 0))"
| "py_eq (PInt i) (PInt j) = (i = j)"
| "py_eq (PStr s) (PStr t) = (s = t)"
| "py_eq (PList xs) (PList ys) = py_eq_list xs ys"
| "py_eq (PObj c n) (PObj c' n') = (c = c' \<and> n = n')"
| "py_eq v v' = False"
| "py_eq_list [] [] = True"
| "py_eq_list (x # xs) (y # ys) = (py_eq x y \<and> py_eq_list xs ys)"
| "py_eq_list xs ys = False"

text \<open>A list is unhashable, and \<open>set(...)\<close> refuses it with a \<open>TypeError\<close>.\<close>

fun hashable :: "pyval \<Rightarrow> bool" where
  "hashable (PList xs) = False"
| "hashable v = True"

subsection \<open>Exceptions, keyword arguments, callables\<close>

datatype exn =
    ValueError string
  | KeyError string
  | TypeError string
  | OtherError string

text \<open>\<open>**kwargs\<close>: the keyword arguments of a call, a dictionary with string keys.
  The source reads it only through \<open>set(kw)\<close> and \<open>kw[name]\<close>.\<close>

type_synonym kwargs = "(string \<times> pyval) list"

text \<open>
  A callable is a Python function or method: what \<open>inspect.getargspec\<close> returns for
  it (\<open>args\<close>, \<open>varargs\<close>, \<open>keywords\<close>, \<open>defaults\<close>; parameter names are plain
  strings), what \<open>inspect.ismethod\<close> says, and what calling it does. A call may read and
  change the world \<open>'w\<close> outside the dispatcher, and returns a value or raises.
\<close>

record 'w callable =
  fn_args :: "string list"
  fn_varargs :: "string option"
  fn_keywords :: "string option"
  fn_defaults :: "pyval list option"
  fn_ismethod :: bool
  fn_call :: "pyval list \<Rightarrow> kwargs \<Rightarrow> 'w \<Rightarrow> (exn + pyval) \<times> 'w"

type_synonym argspec = "string list \<times> string option \<times> string option \<times> pyval list option"

subsection \<open>The module's functions\<close>

text \<open>\<open>correct_argspec\<close>: remove the first argument if the callable is a method.\<close>

definition correct_argspec :: "'w callable \<Rightarrow> argspec" where
  "correct_argspec f =
     (let args = fn_args f;
          args = (if fn_ismethod f then drop 1 args else args)
      in (args, fn_varargs f, fn_keywords f, fn_defaults f))"

text \<open>\<open>[kw[name] for name in names]\<close>: the first missing key raises \<open>KeyError\<close>.\<close>

fun kw_values :: "kwargs \<Rightarrow> string list \<Rightarrow> exn + pyval list" where
  "kw_values kw [] = Inr []"
| "kw_values kw (name # names) =
     (case map_of kw name of
        None \<Rightarrow> Inl (KeyError name)
      | Some v \<Rightarrow> (case kw_values kw names of
                     Inl e \<Rightarrow> Inl e
                   | Inr vs \<Rightarrow> Inr (v # vs)))"

text \<open>\<open>arginize\<close>: turn args and kwargs into args by considering the signature.\<close>

definition arginize :: "'w callable \<Rightarrow> pyval list \<Rightarrow> kwargs \<Rightarrow> exn + pyval list" where
  "arginize f a kw =
     (case correct_argspec f of (args, varargs, keywords, defaults) \<Rightarrow>
        if varargs \<noteq> None \<or> keywords \<noteq> None then Inl (ValueError [])
        else (let names = drop (length a) args
              in case kw_values kw names of
                   Inl e \<Rightarrow> Inl e
                 | Inr vs \<Rightarrow> Inr (a @ vs)))"

text \<open>\<open>matches_types\<close>: \<open>all\<close> over the truncating \<open>izip\<close> of the bound arguments
  and the type list.\<close>

definition matches_types ::
  "'w callable \<Rightarrow> pyclass list \<Rightarrow> pyval list \<Rightarrow> kwargs \<Rightarrow> exn + bool" where
  "matches_types f types a kw =
     (case arginize f a kw of
        Inl e \<Rightarrow> Inl e
      | Inr bound \<Rightarrow> Inr (list_all (\<lambda>(obj, cls). isinstance obj cls) (zip bound types)))"

text \<open>
  \<open>matches_signature\<close>. \<open>defs\<close> is \<open>set(defaults)\<close>, the set of the default
  \<^emph>\<open>values\<close> as \<open>getargspec\<close> gives them (building it raises \<open>TypeError\<close> on an
  unhashable value), and \<open>rest > defs\<close> is Python's proper-superset test between the
  set of names \<open>rest\<close> and that set of values: a value is a member of \<open>rest\<close>
  exactly when it is the string of one of its names. \<open>py_set\<close> is \<open>set(...)\<close>
  of a tuple of values.
\<close>

definition py_set :: "pyval list \<Rightarrow> exn + pyval set" where
  "py_set vs =
     (if list_all hashable vs then Inr (set vs) else Inl (TypeError ''unhashable type''))"

definition matches_signature :: "'w callable \<Rightarrow> pyval list \<Rightarrow> kwargs \<Rightarrow> exn + bool" where
  "matches_signature f a kw =
     (case correct_argspec f of (args, varargs, keywords, defaults) \<Rightarrow>
        if varargs = None \<and> length a > length args then Inr False
        else
          (let skw = set (map fst kw);
               sargs = set (drop (length a) args)
           in if keywords = None \<and> skw - sargs \<noteq> {} then Inr False
              else
                (let rest = set (drop (length a) args) - set (map fst kw)
                 in case (case defaults of None \<Rightarrow> Inr {} | Some ds \<Rightarrow> py_set ds) of
                      Inl e \<Rightarrow> Inl e
                    | Inr defs \<Rightarrow>
                        if defs \<subset> PStr ` rest then Inr False else Inr True)))"

subsection \<open>The dispatcher\<close>

text \<open>\<open>self.funcs\<close> holds \<open>(fun, condition, types)\<close>, \<open>self.nones\<close> holds
  \<open>(fun, types)\<close>; \<open>types\<close> is \<open>None\<close> or a list of classes.\<close>

record 'w ConditionalDispatch =
  funcs :: "('w callable \<times> 'w callable \<times> pyclass list option) list"
  nones :: "('w callable \<times> pyclass list option) list"

text \<open>\<open>__init__\<close>.\<close>

definition init :: "'w ConditionalDispatch" where
  "init = \<lparr>funcs = [], nones = []\<rparr>"

text \<open>Python's \<open>!=\<close> on the two argspec tuples is the negation of this.\<close>

fun argspec_eq :: "argspec \<Rightarrow> argspec \<Rightarrow> bool" where
  "argspec_eq (args, varargs, keywords, defaults) (args', varargs', keywords', defaults') =
     (args = args' \<and> varargs = varargs' \<and> keywords = keywords' \<and>
      (case (defaults, defaults') of
         (None, None) \<Rightarrow> True
       | (Some ds, Some ds') \<Rightarrow> py_eq_list ds ds'
       | _ \<Rightarrow> False))"

text \<open>\<open>add\<close> returns what the call does (raise, or return \<open>None\<close>) and the
  dispatcher afterwards.\<close>

definition add ::
  "'w ConditionalDispatch \<Rightarrow> 'w callable \<Rightarrow> 'w callable option \<Rightarrow> pyclass list option
     \<Rightarrow> (exn + unit) \<times> 'w ConditionalDispatch" where
  "add self f condition types =
     (case condition of
        None \<Rightarrow> (Inr (), self\<lparr>nones := nones self @ [(f, types)]\<rparr>)
      | Some c \<Rightarrow>
          if \<not> argspec_eq (correct_argspec f) (correct_argspec c)
          then (Inl (ValueError ''Signature of condition must match signature of fun.''), self)
          else (Inr (), self\<lparr>funcs := funcs self @ [(f, c, types)]\<rparr>))"

text \<open>\<open>add_dec(condition)\<close> is the decorator that registers the function it is
  applied to under \<open>condition\<close> and returns that function.\<close>

definition add_dec ::
  "'w ConditionalDispatch \<Rightarrow> 'w callable \<Rightarrow> 'w callable
     \<Rightarrow> (exn + 'w callable) \<times> 'w ConditionalDispatch" where
  "add_dec self condition f =
     (case add self f (Some condition) None of
        (Inl e, self') \<Rightarrow> (Inl e, self')
      | (Inr u, self') \<Rightarrow> (Inr f, self'))"

text \<open>The test both loops of \<open>__call__\<close> apply to an entry:
  \<open>matches_signature(fun, args, kwargs) and (types is None or
  matches_types(fun, types, args, kwargs))\<close>, with the short circuit of \<open>and\<close>.\<close>

definition gate ::
  "'w callable \<Rightarrow> pyclass list option \<Rightarrow> pyval list \<Rightarrow> kwargs \<Rightarrow> exn + bool" where
  "gate f types a kw =
     (case matches_signature f a kw of
        Inl e \<Rightarrow> Inl e
      | Inr False \<Rightarrow> Inr False
      | Inr True \<Rightarrow> (case types of
                       None \<Rightarrow> Inr True
                     | Some ts \<Rightarrow> matches_types f ts a kw))"

text \<open>How a loop of \<open>__call__\<close> ends: at \<open>return fun(*args, **kwargs)\<close> for some
  \<open>fun\<close>, with an exception, or by running off its end (with the value of
  \<open>matched\<close>).\<close>

datatype 'w flow =
    Return "'w callable"
  | Raise exn
  | Fallthrough bool

text \<open>The first loop, over \<open>self.funcs\<close>.\<close>

fun loop_funcs ::
  "('w callable \<times> 'w callable \<times> pyclass list option) list \<Rightarrow> pyval list \<Rightarrow> kwargs
     \<Rightarrow> bool \<Rightarrow> 'w \<Rightarrow> 'w flow \<times> 'w" where
  "loop_funcs [] a kw matched w = (Fallthrough matched, w)"
| "loop_funcs ((f, condition, types) # es) a kw matched w =
     (case gate f types a kw of
        Inl e \<Rightarrow> (Raise e, w)
      | Inr False \<Rightarrow> loop_funcs es a kw matched w
      | Inr True \<Rightarrow>
          (case fn_call condition a kw w of
             (Inl e, w') \<Rightarrow> (Raise e, w')
           | (Inr v, w') \<Rightarrow>
               if truthy v then (Return f, w') else loop_funcs es a kw True w'))"

text \<open>The second loop, over \<open>self.nones\<close>.\<close>

fun loop_nones ::
  "('w callable \<times> pyclass list option) list \<Rightarrow> pyval list \<Rightarrow> kwargs \<Rightarrow> bool \<Rightarrow> 'w flow" where
  "loop_nones [] a kw matched = Fallthrough matched"
| "loop_nones ((f, types) # es) a kw matched =
     (case gate f types a kw of
        Inl e \<Rightarrow> Raise e
      | Inr False \<Rightarrow> loop_nones es a kw matched
      | Inr True \<Rightarrow> Return f)"

text \<open>Which function \<open>__call__\<close> calls, if any.\<close>

definition select ::
  "'w ConditionalDispatch \<Rightarrow> pyval list \<Rightarrow> kwargs \<Rightarrow> 'w \<Rightarrow> 'w flow \<times> 'w" where
  "select self a kw w =
     (case loop_funcs (funcs self) a kw False w of
        (Fallthrough matched, w') \<Rightarrow> (loop_nones (nones self) a kw matched, w')
      | (fl, w') \<Rightarrow> (fl, w'))"

text \<open>\<open>__call__\<close>: the result of the call, the dispatcher and the world afterwards.\<close>

definition invoke ::
  "'w ConditionalDispatch \<Rightarrow> pyval list \<Rightarrow> kwargs \<Rightarrow> 'w
     \<Rightarrow> (exn + pyval) \<times> 'w ConditionalDispatch \<times> 'w" where
  "invoke self a kw w =
     (case select self a kw w of
        (Return f, w') \<Rightarrow> (case fn_call f a kw w' of (r, w'') \<Rightarrow> (r, self, w''))
      | (Raise e, w') \<Rightarrow> (Inl e, self, w')
      | (Fallthrough matched, w') \<Rightarrow>
          if matched
          then (Inl (TypeError ''Your input did not fulfill the condition for any function.''),
                self, w')
          else (Inl (TypeError
                  ''There are no functions matching your input parameter signature.''),
                self, w'))"

subsection \<open>Notions of the specification\<close>

text \<open>
  The signature introspector as the specification describes it: the ordered parameter
  names (receiver stripped), the set of names that carry a default (the last ones, as
  many as there are default values), and whether the callable takes extra positional
  and extra named arguments.
\<close>

definition spec_introspect :: "'w callable \<Rightarrow> string list \<times> string set \<times> bool \<times> bool" where
  "spec_introspect f =
     (case correct_argspec f of (args, varargs, keywords, defaults) \<Rightarrow>
        (args,
         (case defaults of None \<Rightarrow> {} | Some ds \<Rightarrow> set (drop (length args - length ds) args)),
         varargs \<noteq> None, keywords \<noteq> None))"

text \<open>A sequence of registrations, conditioned and unconditioned ones in any order;
  a registration that raises leaves the dispatcher as it was and the sequence goes on.\<close>

type_synonym 'w registration = "'w callable \<times> 'w callable option \<times> pyclass list option"

fun register_all :: "'w registration list \<Rightarrow> 'w ConditionalDispatch \<Rightarrow> 'w ConditionalDispatch" where
  "register_all [] self = self"
| "register_all ((f, condition, types) # rs) self =
     register_all rs (snd (add self f condition types))"

text \<open>The conditioned registrations that \<open>add\<close> accepts, and the unconditioned ones,
  each in the order of the sequence.\<close>

fun conditioned_of ::
  "'w registration list \<Rightarrow> ('w callable \<times> 'w callable \<times> pyclass list option) list" where
  "conditioned_of [] = []"
| "conditioned_of ((f, None, types) # rs) = conditioned_of rs"
| "conditioned_of ((f, Some c, types) # rs) =
     (if argspec_eq (correct_argspec f) (correct_argspec c)
      then (f, c, types) # conditioned_of rs else conditioned_of rs)"

fun unconditioned_of :: "'w registration list \<Rightarrow> ('w callable \<times> pyclass list option) list" where
  "unconditioned_of [] = []"
| "unconditioned_of ((f, None, types) # rs) = (f, types) # unconditioned_of rs"
| "unconditioned_of ((f, Some c, types) # rs) = unconditioned_of rs"

text \<open>
  \<open>all_decline es a kw w w'\<close>: considered in order from the world \<open>w\<close>, every
  conditioned entry of \<open>es\<close> either has a gate that returns \<open>False\<close>, or has a gate
  that returns \<open>True\<close> and a condition that returns a false value; \<open>w'\<close> is the world
  after these conditions have run.
\<close>

fun all_decline ::
  "('w callable \<times> 'w callable \<times> pyclass list option) list \<Rightarrow> pyval list \<Rightarrow> kwargs
     \<Rightarrow> 'w \<Rightarrow> 'w \<Rightarrow> bool" where
  "all_decline [] a kw w w' = (w' = w)"
| "all_decline ((f, condition, types) # es) a kw w w' =
     (gate f types a kw = Inr False \<and> all_decline es a kw w w' \<or>
      gate f types a kw = Inr True \<and>
        (case fn_call condition a kw w of
           (Inl e, w1) \<Rightarrow> False
         | (Inr v, w1) \<Rightarrow> \<not> truthy v \<and> all_decline es a kw w1 w'))"

text \<open>A pure callable: its result depends on the arguments only and it leaves the
  world as it is.\<close>

definition pure_callable :: "'w callable \<Rightarrow> bool" where
  "pure_callable f \<longleftrightarrow>
     (\<forall>a kw w w'. fst (fn_call f a kw w) = fst (fn_call f a kw w') \<and> snd (fn_call f a kw w) = w)"

subsection \<open>Example callables\<close>

text \<open>The world of the examples is a counter. \<open>def h(x, y=10)\<close>:\<close>

definition ex_h_xy :: "nat callable" where
  "ex_h_xy = \<lparr>fn_args = [''x'', ''y''], fn_varargs = None, fn_keywords = None,
     fn_defaults = Some [PInt 10], fn_ismethod = False,
     fn_call = (\<lambda>a kw w. (Inr (PStr ''h''), w))\<rparr>"

text \<open>\<open>def star(x, *rest)\<close>:\<close>

definition ex_h_star :: "nat callable" where
  "ex_h_star = \<lparr>fn_args = [''x''], fn_varargs = Some ''rest'', fn_keywords = None,
     fn_defaults = None, fn_ismethod = False,
     fn_call = (\<lambda>a kw w. (Inr (PStr ''star''), w))\<rparr>"

text \<open>\<open>def nullary()\<close>:\<close>

definition ex_h_nullary :: "nat callable" where
  "ex_h_nullary = \<lparr>fn_args = [], fn_varargs = None, fn_keywords = None,
     fn_defaults = None, fn_ismethod = False,
     fn_call = (\<lambda>a kw w. (Inr PNone, w))\<rparr>"

text \<open>\<open>lambda x, y=10: True\<close> and \<open>lambda x, y=20: True\<close>:\<close>

definition ex_c_xy :: "nat callable" where
  "ex_c_xy = \<lparr>fn_args = [''x'', ''y''], fn_varargs = None, fn_keywords = None,
     fn_defaults = Some [PInt 10], fn_ismethod = False,
     fn_call = (\<lambda>a kw w. (Inr (PBool True), w))\<rparr>"

definition ex_c_xy20 :: "nat callable" where
  "ex_c_xy20 = \<lparr>fn_args = [''x'', ''y''], fn_varargs = None, fn_keywords = None,
     fn_defaults = Some [PInt 20], fn_ismethod = False,
     fn_call = (\<lambda>a kw w. (Inr (PBool True), w))\<rparr>"

text \<open>\<open>def h_pos(x)\<close> with the condition
  \<open>lambda x: type(x) is int and x > 0\<close>, and \<open>def h_any(x)\<close>.
  The condition adds 1 to the counter, \<open>h_pos\<close> adds 10 and \<open>h_any\<close> adds 100, so the
  counter tells which of them ran.\<close>

definition ex_h_pos :: "nat callable" where
  "ex_h_pos = \<lparr>fn_args = [''x''], fn_varargs = None, fn_keywords = None,
     fn_defaults = None, fn_ismethod = False,
     fn_call = (\<lambda>a kw w. (Inr (PStr ''pos''), w + 10))\<rparr>"

definition ex_c_pos :: "nat callable" where
  "ex_c_pos = \<lparr>fn_args = [''x''], fn_varargs = None, fn_keywords = None,
     fn_defaults = None, fn_ismethod = False,
     fn_call = (\<lambda>a kw w.
        (case (case a of [] \<Rightarrow> map_of kw ''x'' | x # _ \<Rightarrow> Some x) of
           Some (PInt i) \<Rightarrow> Inr (PBool (0 < i))
         | _ \<Rightarrow> Inr (PBool False),
         w + 1))\<rparr>"

definition ex_h_any :: "nat callable" where
  "ex_h_any = \<lparr>fn_args = [''x''], fn_varargs = None, fn_keywords = None,
     fn_defaults = None, fn_ismethod = False,
     fn_call = (\<lambda>a kw w. (Inr (PStr ''any''), w + 100))\<rparr>"

text \<open>\<open>lambda x: 1 / 0\<close>, a condition that raises whenever it is called:\<close>

definition ex_c_raise :: "nat callable" where
  "ex_c_raise = \<lparr>fn_args = [''x''], fn_varargs = None, fn_keywords = None,
     fn_defaults = None, fn_ismethod = False,
     fn_call = (\<lambda>a kw w. (Inl (OtherError ''ZeroDivisionError''), w + 1))\<rparr>"

text \<open>The first registration of the spectrogram module: the class method
  \<open>from_file(cls, filename)\<close> with the condition \<open>lambda filename: ...\<close>.\<close>

definition ex_from_file :: "nat callable" where
  "ex_from_file = \<lparr>fn_args = [''cls'', ''filename''], fn_varargs = None, fn_keywords = None,
     fn_defaults = None, fn_ismethod = True,
     fn_call = (\<lambda>a kw w. (Inr (PObj ''CallistoSpectrogram'' 0), w))\<rparr>"

definition ex_c_isfile :: "nat callable" where
  "ex_c_isfile = \<lparr>fn_args = [''filename''], fn_varargs = None, fn_keywords = None,
     fn_defaults = None, fn_ismethod = False,
     fn_call = (\<lambda>a kw w. (Inr (PBool True), w))\<rparr>"

section \<open>Properties\<close>

subsection \<open>Binding the arguments\<close>

lemma kw_values_find:
  "kw_values kw names =
     (case find (\<lambda>n. map_of kw n = None) names of
        None \<Rightarrow> Inr (map (\<lambda>n. the (map_of kw n)) names)
      | Some n \<Rightarrow> Inl (KeyError n))"
  by (induction names) (auto split: option.splits)

lemma arginize_variadic:
  "fn_varargs f \<noteq> None \<or> fn_keywords f \<noteq> None \<Longrightarrow> arginize f a kw = Inl (ValueError [])"
  by (auto simp: arginize_def correct_argspec_def Let_def)

lemma arginize_plain:
  "fn_varargs f = None \<Longrightarrow> fn_keywords f = None \<Longrightarrow>
   arginize f a kw =
     (case kw_values kw (drop (length a) (if fn_ismethod f then drop 1 (fn_args f) else fn_args f)) of
        Inl e \<Rightarrow> Inl e | Inr vs \<Rightarrow> Inr (a @ vs))"
  by (simp add: arginize_def correct_argspec_def Let_def)

text \<open>
  Claim C6. \<open>arginize\<close> raises \<open>ValueError\<close> (the unsupported-signature
  error) for every callable with \<open>*args\<close> or \<open>**kwargs\<close>. For every other callable
  it returns the positional arguments followed by \<open>kw[name]\<close> for the formal names
  beyond the positional ones, in the order of the formal parameter list (the method
  receiver stripped); where one of these names has no keyword argument, the lookup of
  the first such name raises \<open>KeyError\<close>.
\<close>

theorem arginize_binds_in_formal_order:
  "(fn_varargs f \<noteq> None \<or> fn_keywords f \<noteq> None \<longrightarrow> arginize f a kw = Inl (ValueError [])) \<and>
   (fn_varargs f = None \<and> fn_keywords f = None \<longrightarrow>
      (let names = drop (length a) (if fn_ismethod f then drop 1 (fn_args f) else fn_args f)
       in case find (\<lambda>n. map_of kw n = None) names of
            None \<Rightarrow> arginize f a kw = Inr (a @ map (\<lambda>n. the (map_of kw n)) names)
          | Some n \<Rightarrow> arginize f a kw = Inl (KeyError n)))"
proof (intro conjI impI)
  assume "fn_varargs f \<noteq> None \<or> fn_keywords f \<noteq> None"
  then show "arginize f a kw = Inl (ValueError [])"
    by (rule arginize_variadic)
next
  assume plain: "fn_varargs f = None \<and> fn_keywords f = None"
  then have "arginize f a kw =
     (case kw_values kw (drop (length a) (if fn_ismethod f then drop 1 (fn_args f) else fn_args f)) of
        Inl e \<Rightarrow> Inl e | Inr vs \<Rightarrow> Inr (a @ vs))"
    by (simp add: arginize_plain)
  then show "let names = drop (length a) (if fn_ismethod f then drop 1 (fn_args f) else fn_args f)
       in case find (\<lambda>n. map_of kw n = None) names of
            None \<Rightarrow> arginize f a kw = Inr (a @ map (\<lambda>n. the (map_of kw n)) names)
          | Some n \<Rightarrow> arginize f a kw = Inl (KeyError n)"
    by (simp add: kw_values_find Let_def split: option.splits)
qed

theorem arginize_binds_in_formal_order_witness:
  "fn_varargs ex_h_star \<noteq> None \<and> arginize ex_h_star [PInt 1] [] = Inl (ValueError []) \<and>
   fn_varargs ex_h_xy = None \<and> fn_keywords ex_h_xy = None \<and>
   arginize ex_h_xy [PInt 1] [(''y'', PInt 2)] = Inr [PInt 1, PInt 2] \<and>
   arginize ex_h_xy [] [(''y'', PInt 2), (''x'', PInt 1)] = Inr [PInt 1, PInt 2] \<and>
   arginize ex_h_xy [PInt 1] [] = Inl (KeyError ''y'')"
  using arginize_binds_in_formal_order [of ex_h_star "[PInt 1]" "[]"]
        arginize_binds_in_formal_order [of ex_h_xy "[PInt 1]" "[(''y'', PInt 2)]"]
        arginize_binds_in_formal_order [of ex_h_xy "[]" "[(''y'', PInt 2), (''x'', PInt 1)]"]
        arginize_binds_in_formal_order [of ex_h_xy "[PInt 1]" "[]"]
  by (simp add: ex_h_star_def ex_h_xy_def)

subsection \<open>The type matcher\<close>

lemma list_all_zip_nth:
  "list_all (\<lambda>(x, y). P x y) (zip xs ys) \<longleftrightarrow>
     (\<forall>i < min (length xs) (length ys). P (xs ! i) (ys ! i))"
  by (auto simp: list_all_iff set_zip)

lemma zip_take_left_length: "zip xs (take (length xs) ys) = zip xs ys"
proof (induction xs arbitrary: ys)
  case Nil
  show ?case by simp
next
  case (Cons x xs)
  then show ?case by (cases ys) simp_all
qed

text \<open>
  Claim C10. Where \<open>arginize\<close> returns a list \<open>bound\<close>, \<open>matches_types\<close> checks
  exactly the positions below the shorter of the two lengths; the classes at positions
  from \<open>length bound\<close> on are never looked at, so cutting the type list to the length
  of \<open>bound\<close> changes nothing, and an empty \<open>bound\<close> satisfies every type list.
\<close>

theorem matches_types_truncating_zip:
  "arginize f a kw = Inr bound \<longrightarrow>
     matches_types f types a kw =
       Inr (\<forall>i < min (length bound) (length types). isinstance (bound ! i) (types ! i)) \<and>
     matches_types f types a kw = matches_types f (take (length bound) types) a kw \<and>
     (bound = [] \<longrightarrow> matches_types f types a kw = Inr True)"
  by (auto simp: matches_types_def list_all_zip_nth zip_take_left_length)

theorem matches_types_truncating_zip_witness:
  "arginize ex_h_xy [PInt 1] [(''y'', PInt 2)] = Inr [PInt 1, PInt 2] \<and>
   matches_types ex_h_xy [ClsInt, ClsInt, ClsStr] [PInt 1] [(''y'', PInt 2)] =
     matches_types ex_h_xy [ClsInt, ClsInt] [PInt 1] [(''y'', PInt 2)] \<and>
   arginize ex_h_nullary [] [] = Inr [] \<and>
   matches_types ex_h_nullary [ClsStr, ClsList] [] [] = Inr True"
proof -
  have b1: "arginize ex_h_xy [PInt 1] [(''y'', PInt 2)] = Inr [PInt 1, PInt 2]"
    by (simp add: arginize_def correct_argspec_def ex_h_xy_def)
  have b2: "arginize ex_h_nullary [] [] = Inr []"
    by (simp add: arginize_def correct_argspec_def ex_h_nullary_def)
  from matches_types_truncating_zip
         [of ex_h_xy "[PInt 1]" "[(''y'', PInt 2)]" "[PInt 1, PInt 2]" "[ClsInt, ClsInt, ClsStr]"] b1
  have "matches_types ex_h_xy [ClsInt, ClsInt, ClsStr] [PInt 1] [(''y'', PInt 2)] =
        matches_types ex_h_xy (take (length [PInt 1, PInt 2]) [ClsInt, ClsInt, ClsStr])
          [PInt 1] [(''y'', PInt 2)]"
    by blast
  then have c1: "matches_types ex_h_xy [ClsInt, ClsInt, ClsStr] [PInt 1] [(''y'', PInt 2)] =
        matches_types ex_h_xy [ClsInt, ClsInt] [PInt 1] [(''y'', PInt 2)]"
    by simp
  from matches_types_truncating_zip [of ex_h_nullary "[]" "[]" "[]" "[ClsStr, ClsList]"] b2
  have c2: "matches_types ex_h_nullary [ClsStr, ClsList] [] [] = Inr True"
    by blast
  from b1 c1 b2 c2 show ?thesis
    by blast
qed

subsection \<open>The signature matcher and defaulted parameters\<close>

text \<open>
  Claim C2. The claim, and the comment in \<open>matches_signature\<close> ("If there are any
  arguments that weren't passed but do not have defaults, the signature does not match"),
  say that a call leaving a parameter without default unsupplied is rejected. The source
  compares the set of unsupplied \<^emph>\<open>names\<close> with the set of default \<^emph>\<open>values\<close>,
  by proper superset. For \<open>def h(x, y=10)\<close> the parameter \<open>x\<close> has no default, yet
  the call \<open>h()\<close>, which supplies nothing, is accepted.
\<close>

theorem matches_signature_accepts_missing_required:
  "fst (spec_introspect ex_h_xy) = [''x'', ''y''] \<and>
   fst (snd (spec_introspect ex_h_xy)) = {''y''} \<and>
   fn_varargs ex_h_xy = None \<and> fn_keywords ex_h_xy = None \<and>
   matches_signature ex_h_xy [] [] = Inr True"
  by (auto simp: spec_introspect_def matches_signature_def correct_argspec_def ex_h_xy_def
      py_set_def)

text \<open>
  Claim C1. The claim says that the type list is checked against the bound arguments
  with defaults filled in. \<open>arginize\<close> reads \<open>defaults\<close> from the argspec and never
  uses it: for \<open>h(x, y=10)\<close> registered with a condition of the same signature and a
  type list, the call \<open>dispatch(1)\<close> passes \<open>matches_signature\<close>, and then
  \<open>matches_types\<close> raises \<open>KeyError\<close> for \<open>y\<close>, which leaves \<open>__call__\<close>.
\<close>

theorem invoke_omitted_default_raises_KeyError:
  "fst (add init ex_h_xy (Some ex_c_xy) (Some [ClsObject, ClsInt])) = Inr () \<and>
   matches_signature ex_h_xy [PInt 1] [] = Inr True \<and>
   matches_types ex_h_xy [ClsObject, ClsInt] [PInt 1] [] = Inl (KeyError ''y'') \<and>
   fst (invoke (snd (add init ex_h_xy (Some ex_c_xy) (Some [ClsObject, ClsInt])))
          [PInt 1] [] 0) = Inl (KeyError ''y'')"
  by (auto simp: add_def init_def invoke_def select_def gate_def matches_types_def arginize_def
      matches_signature_def correct_argspec_def ex_h_xy_def ex_c_xy_def py_set_def)

subsection \<open>Registration\<close>

lemma py_eq_list_length: "py_eq_list xs ys \<Longrightarrow> length xs = length ys"
proof (induction xs arbitrary: ys)
  case Nil
  then show ?case by (cases ys) simp_all
next
  case (Cons x xs)
  then show ?case by (cases ys) auto
qed

lemma argspec_eq_spec_introspect:
  "argspec_eq (correct_argspec f) (correct_argspec c) \<Longrightarrow> spec_introspect f = spec_introspect c"
  by (auto simp: spec_introspect_def correct_argspec_def Let_def
           dest: py_eq_list_length split: option.splits)

text \<open>
  Claim C3, as stated, fails: \<open>add\<close> compares the two argspecs themselves, with the
  default values and the names of \<open>*args\<close> and \<open>**kwargs\<close>, not the tuple of
  parameter names, defaulted set and two flags. \<open>h(x, y=10)\<close> and the condition
  \<open>lambda x, y=20: ...\<close> have the same such tuple, and \<open>add\<close> raises.
\<close>

theorem add_rejects_equal_spec_signatures:
  "spec_introspect ex_h_xy = spec_introspect ex_c_xy20 \<and>
   add init ex_h_xy (Some ex_c_xy20) None =
     (Inl (ValueError ''Signature of condition must match signature of fun.''), init)"
  by (simp add: spec_introspect_def add_def correct_argspec_def ex_h_xy_def ex_c_xy20_def)

text \<open>
  Claim C3, amended. With a condition, \<open>add\<close> appends \<open>(fun, condition, types)\<close> to
  \<open>funcs\<close> if and only if the two argspecs after receiver stripping are equal under
  Python's \<open>==\<close>: the same parameter names, the same name (or absence) of \<open>*args\<close>,
  the same name (or absence) of \<open>**kwargs\<close>, and equal default values. Otherwise it
  raises \<open>ValueError\<close> and the dispatcher, both lists, is as before. Equal argspecs
  have equal tuples of parameter names, defaulted set and variadic flags.
\<close>

theorem add_compares_argspecs:
  "add self f (Some c) types =
     (if argspec_eq (correct_argspec f) (correct_argspec c)
      then (Inr (), self\<lparr>funcs := funcs self @ [(f, c, types)]\<rparr>)
      else (Inl (ValueError ''Signature of condition must match signature of fun.''), self)) \<and>
   (argspec_eq (correct_argspec f) (correct_argspec c) \<longrightarrow> spec_introspect f = spec_introspect c)"
  by (simp add: add_def argspec_eq_spec_introspect)

theorem add_compares_argspecs_witness:
  "argspec_eq (correct_argspec ex_h_xy) (correct_argspec ex_c_xy) \<and>
   add init ex_h_xy (Some ex_c_xy) None =
     (Inr (), \<lparr>funcs = [(ex_h_xy, ex_c_xy, None)], nones = []\<rparr>) \<and>
   spec_introspect ex_h_xy = spec_introspect ex_c_xy \<and>
   \<not> argspec_eq (correct_argspec ex_h_xy) (correct_argspec ex_c_pos) \<and>
   add init ex_h_xy (Some ex_c_pos) None =
     (Inl (ValueError ''Signature of condition must match signature of fun.''), init) \<and>
   argspec_eq (correct_argspec ex_from_file) (correct_argspec ex_c_isfile) \<and>
   add init ex_from_file (Some ex_c_isfile) (Some [ClsBasestring]) =
     (Inr (), \<lparr>funcs = [(ex_from_file, ex_c_isfile, Some [ClsBasestring])], nones = []\<rparr>)"
proof -
  have meq: "argspec_eq (correct_argspec ex_from_file) (correct_argspec ex_c_isfile)"
    by (simp add: correct_argspec_def ex_from_file_def ex_c_isfile_def)
  have eq: "argspec_eq (correct_argspec ex_h_xy) (correct_argspec ex_c_xy)"
    by (simp add: correct_argspec_def ex_h_xy_def ex_c_xy_def)
  have neq: "\<not> argspec_eq (correct_argspec ex_h_xy) (correct_argspec ex_c_pos)"
    by (simp add: correct_argspec_def ex_h_xy_def ex_c_pos_def)
  from eq neq meq
    add_compares_argspecs [of init ex_h_xy ex_c_xy None]
    add_compares_argspecs [of init ex_h_xy ex_c_pos None]
    add_compares_argspecs [of init ex_from_file ex_c_isfile "Some [ClsBasestring]"]
  show ?thesis
    by (simp add: init_def)
qed

subsection \<open>The two loops of the call\<close>

lemma loop_funcs_declined:
  "all_decline pre a kw w w1 \<Longrightarrow>
   loop_funcs (pre @ es) a kw m w =
     loop_funcs es a kw (m \<or> (\<exists>(f, c, t) \<in> set pre. gate f t a kw = Inr True)) w1"
proof (induction pre arbitrary: m w)
  case Nil
  then show ?case by simp
next
  case (Cons e pre)
  obtain f c t where e: "e = (f, c, t)" by (cases e)
  from Cons.prems e consider
      (reject) "gate f t a kw = Inr False" "all_decline pre a kw w w1"
    | (falsy) v w2 where "gate f t a kw = Inr True" "fn_call c a kw w = (Inr v, w2)"
        "\<not> truthy v" "all_decline pre a kw w2 w1"
    by (auto split: prod.splits sum.splits)
  then show ?case
  proof cases
    case reject
    then show ?thesis using Cons.IH [of w m] e by simp
  next
    case falsy
    then show ?thesis using Cons.IH [of w2 True] e by simp
  qed
qed

lemma loop_funcs_fallthrough:
  "loop_funcs es a kw m w = (Fallthrough m', w') \<Longrightarrow>
   all_decline es a kw w w' \<and> m' = (m \<or> (\<exists>(f, c, t) \<in> set es. gate f t a kw = Inr True))"
proof (induction es arbitrary: m w)
  case Nil
  then show ?case by simp
next
  case (Cons e es)
  obtain f c t where e: "e = (f, c, t)" by (cases e)
  show ?case
  proof (cases "gate f t a kw")
    case (Inl x)
    with Cons.prems e show ?thesis by simp
  next
    case (Inr b)
    show ?thesis
    proof (cases b)
      case False
      with Inr Cons.prems e have "loop_funcs es a kw m w = (Fallthrough m', w')" by simp
      from Cons.IH [OF this] Inr False e show ?thesis by simp
    next
      case True
      obtain r w2 where call: "fn_call c a kw w = (r, w2)" by (cases "fn_call c a kw w")
      show ?thesis
      proof (cases r)
        case (Inl x)
        with Inr True call Cons.prems e show ?thesis by simp
      next
        case (Inr v)
        with \<open>gate f t a kw = Inr b\<close> True call Cons.prems e
        have nt: "\<not> truthy v" and rest: "loop_funcs es a kw True w2 = (Fallthrough m', w')"
          by (auto split: if_splits)
        from Cons.IH [OF rest] nt Inr \<open>gate f t a kw = Inr b\<close> True call e
        show ?thesis by simp
      qed
    qed
  qed
qed

lemma loop_nones_rejected:
  "\<forall>(g, u) \<in> set pre. gate g u a kw = Inr False \<Longrightarrow>
   loop_nones (pre @ es) a kw m = loop_nones es a kw m"
  by (induction pre) auto

lemma loop_nones_fallthrough:
  "loop_nones es a kw m = Fallthrough m' \<Longrightarrow>
   (\<forall>(g, u) \<in> set es. gate g u a kw = Inr False) \<and> m' = m"
  by (induction es) (auto split: sum.splits bool.splits)

lemma select_fallthrough:
  "all_decline (funcs self) a kw w w' \<Longrightarrow>
   \<forall>(g, u) \<in> set (nones self). gate g u a kw = Inr False \<Longrightarrow>
   select self a kw w = (Fallthrough (\<exists>(f, c, t) \<in> set (funcs self). gate f t a kw = Inr True), w')"
  using loop_funcs_declined [of "funcs self" a kw w w' "[]" False]
        loop_nones_rejected [of "nones self" a kw "[]"]
  by (simp add: select_def)

lemma select_fallthroughD:
  "select self a kw w = (Fallthrough m, w') \<Longrightarrow>
   all_decline (funcs self) a kw w w' \<and>
   (\<forall>(g, u) \<in> set (nones self). gate g u a kw = Inr False) \<and>
   m = (\<exists>(f, c, t) \<in> set (funcs self). gate f t a kw = Inr True)"
proof -
  assume sel: "select self a kw w = (Fallthrough m, w')"
  obtain fl w1 where lf: "loop_funcs (funcs self) a kw False w = (fl, w1)"
    by (cases "loop_funcs (funcs self) a kw False w")
  show ?thesis
  proof (cases fl)
    case (Return f)
    with sel lf show ?thesis by (simp add: select_def)
  next
    case (Raise e)
    with sel lf show ?thesis by (simp add: select_def)
  next
    case (Fallthrough m1)
    with sel lf have w: "w1 = w'" and ln: "loop_nones (nones self) a kw m1 = Fallthrough m"
      by (simp_all add: select_def)
    from loop_funcs_fallthrough [of "funcs self" a kw False w m1 w1] lf Fallthrough
    have "all_decline (funcs self) a kw w w1"
      and "m1 = (\<exists>(f, c, t) \<in> set (funcs self). gate f t a kw = Inr True)"
      by simp_all
    with loop_nones_fallthrough [OF ln] w show ?thesis by simp
  qed
qed

lemma register_all_lists:
  "funcs (register_all rs self) = funcs self @ conditioned_of rs \<and>
   nones (register_all rs self) = nones self @ unconditioned_of rs"
proof (induction rs arbitrary: self)
  case Nil
  show ?case by simp
next
  case (Cons r rs)
  obtain f c t where r: "r = (f, c, t)" by (cases r)
  show ?case
  proof (cases c)
    case None
    with r Cons.IH [of "snd (add self f None t)"] show ?thesis
      by (simp add: add_def)
  next
    case (Some cond)
    with r Cons.IH [of "snd (add self f (Some cond) t)"] show ?thesis
      by (simp add: add_def)
  qed
qed

lemma select_conditioned:
  assumes "funcs self = pre @ (f, c, t) # post"
    and "all_decline pre a kw w w1"
    and "gate f t a kw = Inr True"
    and "fn_call c a kw w1 = (Inr v, w2)"
    and "truthy v"
  shows "select self a kw w = (Return f, w2)"
  using assms loop_funcs_declined [of pre a kw w w1 "(f, c, t) # post" False]
  by (simp add: select_def)

lemma select_unconditioned:
  assumes "all_decline (funcs self) a kw w w1"
    and "nones self = pre @ (f, t) # post"
    and "\<forall>(g, u) \<in> set pre. gate g u a kw = Inr False"
    and "gate f t a kw = Inr True"
  shows "select self a kw w = (Return f, w1)"
  using assms loop_funcs_declined [of "funcs self" a kw w w1 "[]" False]
        loop_nones_rejected [of pre a kw "(f, t) # post"]
  by (simp add: select_def)

lemma invoke_Return:
  "select self a kw w = (Return f, w1) \<Longrightarrow>
   invoke self a kw w = (fst (fn_call f a kw w1), self, snd (fn_call f a kw w1))"
  by (simp add: invoke_def split: prod.splits)

lemma loop_funcs_pure:
  "\<forall>(f, c, t) \<in> set es. pure_callable c \<Longrightarrow>
   loop_funcs es a kw m w = (fst (loop_funcs es a kw m w'), w)"
proof (induction es arbitrary: m)
  case Nil
  show ?case by simp
next
  case (Cons e es)
  obtain f c t where e: "e = (f, c, t)" by (cases e)
  from Cons.prems e have pc: "pure_callable c" by simp
  obtain r where r: "fn_call c a kw w = (r, w)"
    using pc by (metis pure_callable_def prod.collapse)
  from pc r have r': "fn_call c a kw w' = (r, w')"
    by (metis pure_callable_def fst_conv prod.collapse)
  from Cons.prems have IH: "\<And>m. loop_funcs es a kw m w = (fst (loop_funcs es a kw m w'), w)"
    by (intro Cons.IH) simp
  show ?case
    using IH [of m] IH [of True] r r' e
    by (auto split: sum.splits bool.splits)
qed

lemma select_pure:
  assumes "\<forall>(f, c, t) \<in> set (funcs self). pure_callable c"
  shows "select self a kw w = (fst (select self a kw w'), w)"
proof -
  from loop_funcs_pure [OF assms, of a kw False w w']
  have lf: "loop_funcs (funcs self) a kw False w =
    (fst (loop_funcs (funcs self) a kw False w'), w)" .
  obtain fl w1 where lf': "loop_funcs (funcs self) a kw False w' = (fl, w1)"
    by (cases "loop_funcs (funcs self) a kw False w'")
  from lf lf' show ?thesis
    by (cases fl) (simp_all add: select_def)
qed

lemma loop_funcs_Return_mem:
  "loop_funcs es a kw m w = (Return f, w1) \<Longrightarrow> \<exists>c t. (f, c, t) \<in> set es"
proof (induction es arbitrary: m w)
  case Nil
  then show ?case by simp
next
  case (Cons e es)
  obtain g c t where e: "e = (g, c, t)" by (cases e)
  from Cons.prems e have "g = f \<or> (\<exists>m' w'. loop_funcs es a kw m' w' = (Return f, w1))"
    by (auto split: sum.splits bool.splits prod.splits if_splits)
  then show ?case
  proof
    assume "g = f"
    with e show ?thesis by auto
  next
    assume "\<exists>m' w'. loop_funcs es a kw m' w' = (Return f, w1)"
    then obtain m' w' where "loop_funcs es a kw m' w' = (Return f, w1)" by blast
    from Cons.IH [OF this] show ?thesis by auto
  qed
qed

lemma loop_nones_Return_mem:
  "loop_nones es a kw m = Return f \<Longrightarrow> \<exists>t. (f, t) \<in> set es"
  by (induction es) (auto split: sum.splits bool.splits)

lemma select_Return_mem:
  assumes "select self a kw w = (Return f, w1)"
  shows "(\<exists>c t. (f, c, t) \<in> set (funcs self)) \<or> (\<exists>t. (f, t) \<in> set (nones self))"
proof -
  obtain fl w2 where lf: "loop_funcs (funcs self) a kw False w = (fl, w2)"
    by (cases "loop_funcs (funcs self) a kw False w")
  show ?thesis
  proof (cases fl)
    case (Return g)
    with assms lf have "loop_funcs (funcs self) a kw False w = (Return f, w1)"
      by (simp add: select_def)
    from loop_funcs_Return_mem [OF this] show ?thesis by blast
  next
    case (Raise e)
    with assms lf show ?thesis by (simp add: select_def)
  next
    case (Fallthrough m)
    with assms lf have "loop_nones (nones self) a kw m = Return f"
      by (simp add: select_def)
    from loop_nones_Return_mem [OF this] show ?thesis by blast
  qed
qed

lemma gate_ex_h_pos_one: "gate ex_h_pos (Some [ClsObject]) [v] [] = Inr True"
  by (simp add: gate_def matches_signature_def matches_types_def arginize_def
      correct_argspec_def ex_h_pos_def)

lemma gate_ex_h_pos_two: "gate ex_h_pos (Some [ClsObject]) [v, v'] [] = Inr False"
  by (simp add: gate_def matches_signature_def correct_argspec_def ex_h_pos_def)

lemma gate_ex_h_any_one: "gate ex_h_any None [v] [] = Inr True"
  by (simp add: gate_def matches_signature_def correct_argspec_def ex_h_any_def)

subsection \<open>Dispatch\<close>

text \<open>
  Claim C4, as stated, fails: a call can end with no handler invoked and an exception
  that is neither of the two dispatch errors. With \<open>h_pos\<close> registered under the
  condition \<open>lambda x: 1 / 0\<close>, the call \<open>dispatch(1)\<close> leaves the first loop with
  the condition's exception, after the condition and before any handler; with
  \<open>star(x, *rest)\<close> registered without condition and with a type list, the call
  \<open>dispatch(1, 2)\<close> leaves the second loop with the \<open>ValueError\<close> of \<open>arginize\<close>.
\<close>

theorem invoke_raises_third_error:
  "select \<lparr>funcs = [(ex_h_pos, ex_c_raise, None)], nones = []\<rparr> [PInt 1] [] 0 =
     (Raise (OtherError ''ZeroDivisionError''), 1) \<and>
   invoke \<lparr>funcs = [(ex_h_pos, ex_c_raise, None)], nones = []\<rparr> [PInt 1] [] 0 =
     (Inl (OtherError ''ZeroDivisionError''),
      \<lparr>funcs = [(ex_h_pos, ex_c_raise, None)], nones = []\<rparr>, 1) \<and>
   OtherError ''ZeroDivisionError'' \<noteq>
     TypeError ''Your input did not fulfill the condition for any function.'' \<and>
   OtherError ''ZeroDivisionError'' \<noteq>
     TypeError ''There are no functions matching your input parameter signature.'' \<and>
   select \<lparr>funcs = [], nones = [(ex_h_star, Some [ClsObject])]\<rparr> [PInt 1, PInt 2] [] 0 =
     (Raise (ValueError []), 0) \<and>
   invoke \<lparr>funcs = [], nones = [(ex_h_star, Some [ClsObject])]\<rparr> [PInt 1, PInt 2] [] 0 =
     (Inl (ValueError []), \<lparr>funcs = [], nones = [(ex_h_star, Some [ClsObject])]\<rparr>, 0)"
  by (simp add: invoke_def select_def gate_def matches_signature_def matches_types_def
      arginize_def correct_argspec_def ex_h_pos_def ex_c_raise_def ex_h_star_def)

text \<open>
  Claim C4, amended. When no gate and no condition raises and no handler is invoked,
  that is, when every conditioned entry is passed over (its gate returns \<open>False\<close>, or
  its gate returns \<open>True\<close> and its condition returns a false value) and the gate of
  every unconditioned entry returns \<open>False\<close>, \<open>__call__\<close> raises one of two
  \<open>TypeError\<close>s with different messages: the "did not fulfill the condition" one when
  the gate of some conditioned entry returned \<open>True\<close>, the "no functions matching" one
  when no gate did. Conversely, whenever the two loops end without a \<open>return\<close> and
  without an exception of a gate or a condition, that is the situation.
\<close>

theorem invoke_dispatch_errors:
  "(all_decline (funcs self) a kw w w' \<and>
    (\<forall>(g, u) \<in> set (nones self). gate g u a kw = Inr False) \<longrightarrow>
      invoke self a kw w =
        (Inl (if \<exists>(f, c, t) \<in> set (funcs self). gate f t a kw = Inr True
              then TypeError ''Your input did not fulfill the condition for any function.''
              else TypeError ''There are no functions matching your input parameter signature.''),
         self, w')) \<and>
   TypeError ''Your input did not fulfill the condition for any function.'' \<noteq>
     TypeError ''There are no functions matching your input parameter signature.'' \<and>
   (\<forall>m. select self a kw w = (Fallthrough m, w') \<longrightarrow>
      all_decline (funcs self) a kw w w' \<and>
      (\<forall>(g, u) \<in> set (nones self). gate g u a kw = Inr False))"
proof (intro conjI impI allI)
  assume "all_decline (funcs self) a kw w w' \<and>
    (\<forall>(g, u) \<in> set (nones self). gate g u a kw = Inr False)"
  then have "select self a kw w =
    (Fallthrough (\<exists>(f, c, t) \<in> set (funcs self). gate f t a kw = Inr True), w')"
    by (simp add: select_fallthrough)
  then show "invoke self a kw w =
        (Inl (if \<exists>(f, c, t) \<in> set (funcs self). gate f t a kw = Inr True
              then TypeError ''Your input did not fulfill the condition for any function.''
              else TypeError ''There are no functions matching your input parameter signature.''),
         self, w')"
    by (simp add: invoke_def)
next
  show "TypeError ''Your input did not fulfill the condition for any function.'' \<noteq>
     TypeError ''There are no functions matching your input parameter signature.''"
    by simp
next
  fix m
  assume "select self a kw w = (Fallthrough m, w')"
  from select_fallthroughD [OF this]
  show "all_decline (funcs self) a kw w w'" by simp
next
  fix m
  assume "select self a kw w = (Fallthrough m, w')"
  from select_fallthroughD [OF this]
  show "\<forall>(g, u) \<in> set (nones self). gate g u a kw = Inr False" by simp
qed

theorem invoke_dispatch_errors_witness:
  "all_decline [(ex_h_pos, ex_c_pos, Some [ClsObject])] [PInt (- 1)] [] 0 1 \<and>
   invoke \<lparr>funcs = [(ex_h_pos, ex_c_pos, Some [ClsObject])], nones = []\<rparr> [PInt (- 1)] [] 0 =
     (Inl (TypeError ''Your input did not fulfill the condition for any function.''),
      \<lparr>funcs = [(ex_h_pos, ex_c_pos, Some [ClsObject])], nones = []\<rparr>, 1) \<and>
   all_decline [(ex_h_pos, ex_c_pos, Some [ClsObject])] [PInt 1, PInt 2] [] 0 0 \<and>
   invoke \<lparr>funcs = [(ex_h_pos, ex_c_pos, Some [ClsObject])], nones = []\<rparr> [PInt 1, PInt 2] [] 0 =
     (Inl (TypeError ''There are no functions matching your input parameter signature.''),
      \<lparr>funcs = [(ex_h_pos, ex_c_pos, Some [ClsObject])], nones = []\<rparr>, 0)"
proof -
  have d1: "all_decline [(ex_h_pos, ex_c_pos, Some [ClsObject])] [PInt (- 1)] [] 0 1"
    by (simp add: gate_ex_h_pos_one ex_c_pos_def)
  have d2: "all_decline [(ex_h_pos, ex_c_pos, Some [ClsObject])] [PInt 1, PInt 2] [] 0 0"
    by (simp add: gate_ex_h_pos_two)
  from d1 d2
    invoke_dispatch_errors
      [of "\<lparr>funcs = [(ex_h_pos, ex_c_pos, Some [ClsObject])], nones = []\<rparr>" "[PInt (- 1)]" "[]" 0 1]
    invoke_dispatch_errors
      [of "\<lparr>funcs = [(ex_h_pos, ex_c_pos, Some [ClsObject])], nones = []\<rparr>" "[PInt 1, PInt 2]" "[]" 0 0]
  show ?thesis
    by (simp add: gate_ex_h_pos_one gate_ex_h_pos_two)
qed

text \<open>
  Claim C5, as stated, fails: the handler of the first conditioned entry whose gate
  passes and whose condition returns a true value is not called when an entry before it
  raises. With \<open>h_pos\<close> registered first under \<open>lambda x: 1 / 0\<close> and \<open>h_any\<close>
  registered second under the condition of \<open>h_pos\<close>, the call \<open>dispatch(1)\<close> passes
  both gates; the first condition raises, the second would return \<open>True\<close>, and the
  call ends with the exception of the first: \<open>h_any\<close> does not run.
\<close>

theorem invoke_earlier_exception_preempts:
  "funcs (register_all [(ex_h_pos, Some ex_c_raise, None), (ex_h_any, Some ex_c_pos, None)] init) =
     [(ex_h_pos, ex_c_raise, None), (ex_h_any, ex_c_pos, None)] \<and>
   gate ex_h_pos None [PInt 1] [] = Inr True \<and>
   fn_call ex_c_raise [PInt 1] [] 0 = (Inl (OtherError ''ZeroDivisionError''), 1) \<and>
   gate ex_h_any None [PInt 1] [] = Inr True \<and>
   fn_call ex_c_pos [PInt 1] [] 0 = (Inr (PBool True), 1) \<and>
   fn_call ex_c_pos [PInt 1] [] 1 = (Inr (PBool True), 2) \<and>
   fst (fn_call ex_h_any [PInt 1] [] 2) = Inr (PStr ''any'') \<and>
   invoke (register_all [(ex_h_pos, Some ex_c_raise, None), (ex_h_any, Some ex_c_pos, None)] init)
       [PInt 1] [] 0 =
     (Inl (OtherError ''ZeroDivisionError''),
      register_all [(ex_h_pos, Some ex_c_raise, None), (ex_h_any, Some ex_c_pos, None)] init, 1)"
  by (simp add: init_def add_def invoke_def select_def gate_def matches_signature_def
      correct_argspec_def ex_h_pos_def ex_h_any_def ex_c_raise_def ex_c_pos_def)

text \<open>
  Claim C5, amended. Whatever the order of the registrations, \<open>funcs\<close> holds the
  accepted conditioned registrations and \<open>nones\<close> the unconditioned ones, each in
  registration order. Provided every conditioned entry before it is passed over (its
  gate returns \<open>False\<close>, or its gate returns \<open>True\<close> and its condition returns a
  false value, so that none of them raises), \<open>__call__\<close> returns what the handler of
  the first conditioned entry returns whose gate returns \<open>True\<close> and whose condition
  returns a true value; when all conditioned entries are passed over, it returns what
  the handler of the first unconditioned entry returns whose gate returns \<open>True\<close>,
  provided the gates of the unconditioned entries before it returned \<open>False\<close>. The
  world after the call is the one that handler leaves, started from the world left by
  the conditions evaluated up to that entry: nothing of a later entry runs.
\<close>

theorem invoke_first_match_wins:
  "funcs (register_all rs init) = conditioned_of rs \<and>
   nones (register_all rs init) = unconditioned_of rs \<and>
   (conditioned_of rs = pre @ (f, c, t) # post \<and> all_decline pre a kw w w1 \<and>
    gate f t a kw = Inr True \<and> fn_call c a kw w1 = (Inr v, w2) \<and> truthy v \<longrightarrow>
      invoke (register_all rs init) a kw w =
        (fst (fn_call f a kw w2), register_all rs init, snd (fn_call f a kw w2))) \<and>
   (all_decline (conditioned_of rs) a kw w w3 \<and> unconditioned_of rs = pre' @ (f', t') # post' \<and>
    (\<forall>(g, u) \<in> set pre'. gate g u a kw = Inr False) \<and> gate f' t' a kw = Inr True \<longrightarrow>
      invoke (register_all rs init) a kw w =
        (fst (fn_call f' a kw w3), register_all rs init, snd (fn_call f' a kw w3)))"
proof -
  have lists: "funcs (register_all rs init) = conditioned_of rs"
    "nones (register_all rs init) = unconditioned_of rs"
    using register_all_lists [of rs init] by (simp_all add: init_def)
  have cond: "invoke (register_all rs init) a kw w =
          (fst (fn_call f a kw w2), register_all rs init, snd (fn_call f a kw w2))"
    if "conditioned_of rs = pre @ (f, c, t) # post" "all_decline pre a kw w w1"
      "gate f t a kw = Inr True" "fn_call c a kw w1 = (Inr v, w2)" "truthy v"
    using that lists by (intro invoke_Return select_conditioned [where pre = pre]) simp_all
  have uncond: "invoke (register_all rs init) a kw w =
          (fst (fn_call f' a kw w3), register_all rs init, snd (fn_call f' a kw w3))"
    if "all_decline (conditioned_of rs) a kw w w3" "unconditioned_of rs = pre' @ (f', t') # post'"
      "\<forall>(g, u) \<in> set pre'. gate g u a kw = Inr False" "gate f' t' a kw = Inr True"
    using that lists by (intro invoke_Return select_unconditioned [where pre = pre']) simp_all
  from lists cond uncond show ?thesis by blast
qed

theorem invoke_first_match_wins_witness:
  "funcs (register_all [(ex_h_any, None, None), (ex_h_pos, Some ex_c_pos, Some [ClsObject])] init) =
     [(ex_h_pos, ex_c_pos, Some [ClsObject])] \<and>
   nones (register_all [(ex_h_any, None, None), (ex_h_pos, Some ex_c_pos, Some [ClsObject])] init) =
     [(ex_h_any, None)] \<and>
   gate ex_h_pos (Some [ClsObject]) [PInt 5] [] = Inr True \<and>
   fn_call ex_c_pos [PInt 5] [] 0 = (Inr (PBool True), 1) \<and>
   fst (invoke (register_all [(ex_h_any, None, None), (ex_h_pos, Some ex_c_pos, Some [ClsObject])]
                  init) [PInt 5] [] 0) = Inr (PStr ''pos'') \<and>
   snd (snd (invoke (register_all [(ex_h_any, None, None),
                  (ex_h_pos, Some ex_c_pos, Some [ClsObject])] init) [PInt 5] [] 0)) = 11 \<and>
   all_decline [(ex_h_pos, ex_c_pos, Some [ClsObject])] [PInt (- 1)] [] 0 1 \<and>
   gate ex_h_any None [PInt (- 1)] [] = Inr True \<and>
   fst (invoke (register_all [(ex_h_any, None, None), (ex_h_pos, Some ex_c_pos, Some [ClsObject])]
                  init) [PInt (- 1)] [] 0) = Inr (PStr ''any'') \<and>
   snd (snd (invoke (register_all [(ex_h_any, None, None),
                  (ex_h_pos, Some ex_c_pos, Some [ClsObject])] init) [PInt (- 1)] [] 0)) = 101"
proof -
  let ?rs = "[(ex_h_any, None, None), (ex_h_pos, Some ex_c_pos, Some [ClsObject])]"
  have c: "conditioned_of ?rs = [] @ (ex_h_pos, ex_c_pos, Some [ClsObject]) # []"
    by (simp add: correct_argspec_def ex_h_pos_def ex_c_pos_def)
  have u: "unconditioned_of ?rs = [] @ (ex_h_any, None) # []"
    by simp
  have call: "fn_call ex_c_pos [PInt 5] [] 0 = (Inr (PBool True), 1)"
    by (simp add: ex_c_pos_def)
  have d: "all_decline [(ex_h_pos, ex_c_pos, Some [ClsObject])] [PInt (- 1)] [] 0 1"
    by (simp add: gate_ex_h_pos_one ex_c_pos_def)
  have hp: "fn_call ex_h_pos [PInt 5] [] 1 = (Inr (PStr ''pos''), 11)"
    by (simp add: ex_h_pos_def)
  have ha: "fn_call ex_h_any [PInt (- 1)] [] 1 = (Inr (PStr ''any''), 101)"
    by (simp add: ex_h_any_def)
  from c u call d hp ha
    invoke_first_match_wins [of ?rs "[]" ex_h_pos ex_c_pos "Some [ClsObject]" "[]" "[PInt 5]" "[]"
      0 0 "PBool True" 1]
    invoke_first_match_wins [where rs = ?rs and a = "[PInt (- 1)]" and kw = "[]" and w = 0
      and ?w3.0 = 1 and pre' = "[]" and f' = ex_h_any and t' = None and post' = "[]"]
  show ?thesis
    by (simp add: gate_ex_h_pos_one gate_ex_h_any_one)
qed

text \<open>
  Claim C7. When every condition and every handler in the dispatcher is pure, the loop
  exit of \<open>__call__\<close> (which handler it calls, which exception it raises, or that it
  falls through) and the result of the call are the same from any two worlds: they
  depend on the dispatcher and the arguments only.
\<close>

theorem invoke_deterministic:
  "(\<forall>(f, c, t) \<in> set (funcs self). pure_callable c \<and> pure_callable f) \<and>
   (\<forall>(f, t) \<in> set (nones self). pure_callable f) \<longrightarrow>
     fst (select self a kw w) = fst (select self a kw w') \<and>
     fst (invoke self a kw w) = fst (invoke self a kw w')"
proof
  assume pure: "(\<forall>(f, c, t) \<in> set (funcs self). pure_callable c \<and> pure_callable f) \<and>
   (\<forall>(f, t) \<in> set (nones self). pure_callable f)"
  then have conds: "\<forall>(f, c, t) \<in> set (funcs self). pure_callable c" by auto
  obtain fl w1 where s': "select self a kw w' = (fl, w1)"
    by (cases "select self a kw w'")
  from select_pure [OF conds, of a kw w w'] s'
  have s: "select self a kw w = (fl, w)" by simp
  have "fst (invoke self a kw w) = fst (invoke self a kw w')"
  proof (cases fl)
    case (Return f)
    with select_Return_mem [of self a kw w f w] s pure have "pure_callable f"
      by auto
    then have "fst (fn_call f a kw w) = fst (fn_call f a kw w1)"
      by (simp add: pure_callable_def)
    with s s' Return show ?thesis
      by (simp add: invoke_Return)
  next
    case (Raise e)
    with s s' show ?thesis by (simp add: invoke_def)
  next
    case (Fallthrough m)
    with s s' show ?thesis by (simp add: invoke_def)
  qed
  with s s' show "fst (select self a kw w) = fst (select self a kw w') \<and>
     fst (invoke self a kw w) = fst (invoke self a kw w')"
    by simp
qed

theorem invoke_deterministic_witness:
  "pure_callable ex_c_xy \<and> pure_callable ex_h_xy \<and> pure_callable ex_h_nullary \<and>
   fst (select \<lparr>funcs = [(ex_h_xy, ex_c_xy, None)], nones = [(ex_h_nullary, None)]\<rparr>
          [PInt 1] [] 0) =
   fst (select \<lparr>funcs = [(ex_h_xy, ex_c_xy, None)], nones = [(ex_h_nullary, None)]\<rparr>
          [PInt 1] [] 7) \<and>
   fst (invoke \<lparr>funcs = [(ex_h_xy, ex_c_xy, None)], nones = [(ex_h_nullary, None)]\<rparr>
          [PInt 1] [] 0) =
   fst (invoke \<lparr>funcs = [(ex_h_xy, ex_c_xy, None)], nones = [(ex_h_nullary, None)]\<rparr>
          [PInt 1] [] 7)"
proof -
  have p: "pure_callable ex_c_xy" "pure_callable ex_h_xy" "pure_callable ex_h_nullary"
    by (simp_all add: pure_callable_def ex_c_xy_def ex_h_xy_def ex_h_nullary_def)
  from p
    invoke_deterministic
      [of "\<lparr>funcs = [(ex_h_xy, ex_c_xy, None)], nones = [(ex_h_nullary, None)]\<rparr>" "[PInt 1]" "[]" 0 7]
  show ?thesis
    by simp
qed

text \<open>
  Claim C8. \<open>__call__\<close> writes neither \<open>self.funcs\<close> nor \<open>self.nones\<close>: the
  dispatcher after the call is the dispatcher before it, whether a handler returned or
  raised, a gate or a condition raised, or the call ended in a dispatch error.
\<close>

theorem invoke_leaves_registry:
  "fst (snd (invoke self a kw w)) = self"
  by (simp add: invoke_def split: prod.splits flow.splits)

text \<open>
  Claim C9. Without a condition, \<open>add\<close> appends \<open>(fun, types)\<close> to \<open>nones\<close> for any
  callable, looking at nothing. If an entry of \<open>nones\<close> has a callable with \<open>*args\<close>
  or \<open>**kwargs\<close> and a type list, then every call that reaches the entry (the
  conditioned entries passed over, the gates of the unconditioned entries before it
  returning \<open>False\<close>) and passes its \<open>matches_signature\<close> raises the \<open>ValueError\<close>
  of \<open>arginize\<close> out of \<open>__call__\<close>.
\<close>

theorem add_unconditioned_unvalidated:
  "add self f None types = (Inr (), self\<lparr>nones := nones self @ [(f, types)]\<rparr>) \<and>
   ((fn_varargs f \<noteq> None \<or> fn_keywords f \<noteq> None) \<and>
    nones d = pre @ (f, Some ts) # post \<and>
    all_decline (funcs d) a kw w w1 \<and>
    (\<forall>(g, u) \<in> set pre. gate g u a kw = Inr False) \<and>
    matches_signature f a kw = Inr True \<longrightarrow>
      invoke d a kw w = (Inl (ValueError []), d, w1))"
proof (intro conjI impI)
  show "add self f None types = (Inr (), self\<lparr>nones := nones self @ [(f, types)]\<rparr>)"
    by (simp add: add_def)
next
  assume h: "(fn_varargs f \<noteq> None \<or> fn_keywords f \<noteq> None) \<and>
    nones d = pre @ (f, Some ts) # post \<and>
    all_decline (funcs d) a kw w w1 \<and>
    (\<forall>(g, u) \<in> set pre. gate g u a kw = Inr False) \<and>
    matches_signature f a kw = Inr True"
  then have g: "gate f (Some ts) a kw = Inl (ValueError [])"
    by (simp add: gate_def matches_types_def arginize_variadic)
  from h have "loop_funcs (funcs d) a kw False w =
      (Fallthrough (\<exists>(f, c, t) \<in> set (funcs d). gate f t a kw = Inr True), w1)"
    using loop_funcs_declined [of "funcs d" a kw w w1 "[]" False] by simp
  moreover from h g
  have "loop_nones (nones d) a kw m = Raise (ValueError [])" for m
    using loop_nones_rejected [of pre a kw "(f, Some ts) # post" m] by simp
  ultimately show "invoke d a kw w = (Inl (ValueError []), d, w1)"
    by (simp add: invoke_def select_def)
qed

theorem add_unconditioned_unvalidated_witness:
  "add init ex_h_star None (Some [ClsObject]) =
     (Inr (), \<lparr>funcs = [], nones = [(ex_h_star, Some [ClsObject])]\<rparr>) \<and>
   fn_varargs ex_h_star \<noteq> None \<and>
   matches_signature ex_h_star [PInt 1, PInt 2] [] = Inr True \<and>
   invoke \<lparr>funcs = [], nones = [(ex_h_star, Some [ClsObject]), (ex_h_any, None)]\<rparr>
       [PInt 1, PInt 2] [] 0 =
     (Inl (ValueError []),
      \<lparr>funcs = [], nones = [(ex_h_star, Some [ClsObject]), (ex_h_any, None)]\<rparr>, 0)"
proof -
  have v: "fn_varargs ex_h_star \<noteq> None"
    by (simp add: ex_h_star_def)
  have m: "matches_signature ex_h_star [PInt 1, PInt 2] [] = Inr True"
    by (simp add: matches_signature_def correct_argspec_def ex_h_star_def)
  note inst = add_unconditioned_unvalidated
      [of init ex_h_star "Some [ClsObject]"
          "\<lparr>funcs = [], nones = [(ex_h_star, Some [ClsObject]), (ex_h_any, None)]\<rparr>"
          "[]" "[ClsObject]" "[(ex_h_any, None)]" "[PInt 1, PInt 2]" "[]" 0 0]
  from inst [THEN conjunct1] have a: "add init ex_h_star None (Some [ClsObject]) =
      (Inr (), \<lparr>funcs = [], nones = [(ex_h_star, Some [ClsObject])]\<rparr>)"
    by (simp add: init_def)
  from inst [THEN conjunct2] v m
  have "invoke \<lparr>funcs = [], nones = [(ex_h_star, Some [ClsObject]), (ex_h_any, None)]\<rparr>
       [PInt 1, PInt 2] [] 0 =
     (Inl (ValueError []),
      \<lparr>funcs = [], nones = [(ex_h_star, Some [ClsObject]), (ex_h_any, None)]\<rparr>, 0)"
    by simp
  with a v m show ?thesis
    by blast
qed

end
